theory Spec2Isabelle
  imports Complex_Main "HOL-Library.Sublist"
begin

section \<open>Python string operations used by the sources\<close>

text \<open>
  A Python \<open>str\<close> is modelled as a \<open>string\<close> whose characters are code points below 256.
  \<open>is_space\<close> lists the code points in that range for which \<open>str.isspace\<close> holds; they are
  the characters that \<open>str.strip()\<close> removes from both ends.
\<close>

definition is_space :: "char \<Rightarrow> bool" where
  "is_space c \<longleftrightarrow> c \<in> set [CHR 0x09, CHR 0x0A, CHR 0x0B, CHR 0x0C, CHR 0x0D,
                          CHR 0x1C, CHR 0x1D, CHR 0x1E, CHR 0x1F, CHR 0x20, CHR 0x85, CHR 0xA0]"

definition str_strip :: "string \<Rightarrow> string" where
  "str_strip s = rev (dropWhile is_space (rev (dropWhile is_space s)))"

text \<open>\<open>s.startswith(p)\<close> is \<open>prefix p s\<close>.\<close>

definition startswith :: "string \<Rightarrow> string \<Rightarrow> bool" where
  "startswith s p = prefix p s"

text \<open>\<open>s.find(pat)\<close>: the lowest index at which \<open>pat\<close> occurs; \<open>None\<close> stands for \<open>-1\<close>.\<close>

fun str_find :: "string \<Rightarrow> string \<Rightarrow> nat option" where
  "str_find pat [] = (if pat = [] then Some 0 else None)"
| "str_find pat (c # cs) =
     (if prefix pat (c # cs) then Some 0 else map_option Suc (str_find pat cs))"

text \<open>\<open>pat in s\<close>.\<close>

definition str_contains :: "string \<Rightarrow> string \<Rightarrow> bool" where
  "str_contains pat s \<longleftrightarrow> str_find pat s \<noteq> None"

text \<open>
  \<open>s.split(sep, 1)\<close> for a non-empty separator: the text before and after the first
  occurrence, or the whole text alone when there is none. Both call sites pass a
  non-empty literal.
\<close>

definition str_split1 :: "string \<Rightarrow> string \<Rightarrow> string list" where
  "str_split1 sep s =
     (case str_find sep s of
        None \<Rightarrow> [s]
      | Some i \<Rightarrow> [take i s, drop (i + length sep) s])"

text \<open>
  \<open>s.replace(old, new)\<close>: every non-overlapping occurrence, leftmost first. For an empty
  \<open>old\<close> Python puts \<open>new\<close> before every character and at the end.
\<close>

function str_replace :: "string \<Rightarrow> string \<Rightarrow> string \<Rightarrow> string" where
  "str_replace old new [] = (if old = [] then new else [])"
| "str_replace old new (c # cs) =
     (if old = [] then new @ c # str_replace old new cs
      else if prefix old (c # cs) then new @ str_replace old new (drop (length old) (c # cs))
      else c # str_replace old new cs)"
  by pat_completeness auto
termination
  by (relation "measure (\<lambda>(old, new, s). length s)") auto

section \<open>The response decoder (\<open>ModelClient._parse_response\<close>)\<close>

definition action_markers :: "string list" where
  "action_markers = [''{action='', ''do('', ''finish('']"

text \<open>
  The loop over \<open>action_markers\<close>: \<open>first_marker_pos\<close> starts at \<open>len(content)\<close> and is
  lowered to every position found that is smaller.
\<close>

fun first_marker :: "string \<Rightarrow> string list \<Rightarrow> nat \<Rightarrow> nat" where
  "first_marker content [] first_marker_pos = first_marker_pos"
| "first_marker content (marker # ms) first_marker_pos =
     (case str_find marker content of
        Some pos \<Rightarrow>
          first_marker content ms (if pos < first_marker_pos then pos else first_marker_pos)
      | None \<Rightarrow> first_marker content ms first_marker_pos)"

definition parse_response :: "string \<Rightarrow> string \<times> string" where
  "parse_response raw =
     (let content = str_strip raw in
      if str_contains ''<answer>'' content then
        (let parts = str_split1 ''<answer>'' content;
             thinking = str_strip (str_replace ''</think>'' [] (str_replace ''<think>'' [] (parts ! 0)));
             action = str_strip (str_replace ''</answer>'' [] (parts ! 1))
         in (thinking, action))
      else if str_contains ''<think>'' content \<and> str_contains ''</think>'' content then
        (let parts = str_split1 ''</think>'' content;
             thinking = str_strip (str_replace ''<think>'' [] (parts ! 0));
             action = str_strip (parts ! 1)
         in (thinking, action))
      else
        (let first_marker_pos = first_marker content action_markers (length content) in
         if first_marker_pos < length content then
           (str_strip (take first_marker_pos content), str_strip (drop first_marker_pos content))
         else if startswith content ''{'' \<or> startswith content ''do(''
                 \<or> startswith content ''finish('' then
           ([], content)
         else (content, [])))"

text \<open>A text is trimmed when neither end is a whitespace character.\<close>

definition trimmed :: "string \<Rightarrow> bool" where
  "trimmed s \<longleftrightarrow> (case s of [] \<Rightarrow> True | c # cs \<Rightarrow> \<not> is_space c \<and> \<not> is_space (last s))"

section \<open>The network scanner (\<open>phone_agent/adb/scanner.py\<close>)\<close>

text \<open>
  \<open>s.split(sep)\<close> for a one-character separator (the source splits addresses at the dot),
  \<open>sep.join(parts)\<close>, and \<open>str(i)\<close> for a natural number.
\<close>

fun str_split :: "char \<Rightarrow> string \<Rightarrow> string list" where
  "str_split sep [] = [[]]"
| "str_split sep (c # cs) =
     (if c = sep then [] # str_split sep cs
      else (case str_split sep cs of p # ps \<Rightarrow> (c # p) # ps | [] \<Rightarrow> [[c]]))"

fun str_join :: "string \<Rightarrow> string list \<Rightarrow> string" where
  "str_join sep [] = []"
| "str_join sep [p] = p"
| "str_join sep (p # q # ps) = p @ sep @ str_join sep (q # ps)"

fun str_nat :: "nat \<Rightarrow> string" where
  "str_nat n =
     (if n < 10 then [''0123456789'' ! n]
      else str_nat (n div 10) @ [''0123456789'' ! (n mod 10)])"

declare str_nat.simps [simp del]

text \<open>
  The exceptions that can leave the functions modelled here, and what one call of
  \<open>sock.connect_ex\<close> does: it returns an error code (zero when the connection is accepted)
  or raises.
\<close>

datatype py_error = ValueError | TypeError | OSError | NameError

datatype connect_outcome = Code int | ConnectRaises

text \<open>
  What the platform answers during one scan.
  \<^item> \<open>getsockname\<close>: the address read back from the connectionless socket in
    \<open>get_local_ip\<close>, or \<open>None\<close> when one of the socket calls there raises. Both calls of
    \<open>get_local_ip\<close> within one scan read the same answer.
  \<^item> \<open>arp_found\<close>: the matches that \<open>re.findall\<close> extracts from the output of \<open>arp -a\<close>,
    in order, or \<open>None\<close> when running the command raises.
  \<^item> \<open>socket_create ip\<close>: whether \<open>socket.socket(...)\<close> succeeds in the probe of \<open>ip\<close>
    (it raises \<open>OSError\<close> otherwise, for instance when no file descriptor is left).
  \<^item> \<open>connect_ex ip port\<close>: the outcome of the connection attempt of that probe.
\<close>

record world =
  getsockname :: "string option"
  arp_found :: "string list option"
  socket_create :: "string \<Rightarrow> bool"
  connect_ex :: "string \<Rightarrow> int \<Rightarrow> connect_outcome"

definition get_local_ip :: "world \<Rightarrow> string" where
  "get_local_ip w = (case getsockname w of Some ip \<Rightarrow> ip | None \<Rightarrow> ''127.0.0.1'')"

text \<open>\<open>".".join(local_ip.split(".")[:-1])\<close>, computed in \<open>get_arp_ips\<close> and in \<open>scan_network\<close>.\<close>

definition subnet_prefix :: "string \<Rightarrow> string" where
  "subnet_prefix local_ip = str_join ''.'' (butlast (str_split (CHR ''.'') local_ip))"

text \<open>
  \<open>get_arp_ips\<close> collects the accepted matches in a Python set and returns \<open>list(ips)\<close>:
  no duplicates, in an order Python does not specify. The model keeps one copy of each
  address in the order of \<open>remdups\<close>; the results below speak of the set of addresses.
  An exception of the command leaves the set empty.
\<close>

definition get_arp_ips :: "world \<Rightarrow> string list" where
  "get_arp_ips w =
     (case arp_found w of
        None \<Rightarrow> []
      | Some found \<Rightarrow>
          (let local_ip = get_local_ip w;
               subnet_prefix = subnet_prefix local_ip
           in remdups (filter (\<lambda>ip. startswith ip subnet_prefix \<and> ip \<noteq> local_ip) found)))"

text \<open>
  \<open>check_port\<close>: the socket is created and its timeout set before the \<open>try\<close> block, so an
  exception of either call leaves the function (\<open>settimeout\<close> raises \<open>ValueError\<close> for a
  negative timeout); an exception of \<open>connect_ex\<close> is swallowed. The timeout, a Python
  float, is modelled as a real number.
\<close>

definition check_port :: "world \<Rightarrow> string \<Rightarrow> int \<Rightarrow> real \<Rightarrow> py_error + string option" where
  "check_port w ip port timeout =
     (if \<not> socket_create w ip then Inl OSError
      else if timeout < 0 then Inl ValueError
      else (case connect_ex w ip port of
              Code result \<Rightarrow> if result = 0 then Inr (Some ip) else Inr None
            | ConnectRaises \<Rightarrow> Inr None))"

text \<open>
  The loop \<open>for future in futures: result = future.result(); if result: ...\<close>:
  \<open>future.result()\<close> raises again what the probe raised; a result is appended when it is
  truthy, that is neither \<open>None\<close> nor the empty text.
\<close>

fun collect :: "(py_error + string option) list \<Rightarrow> string list \<Rightarrow> py_error + string list" where
  "collect [] found_ips = Inr found_ips"
| "collect (Inl e # rs) found_ips = Inl e"
| "collect (Inr None # rs) found_ips = collect rs found_ips"
| "collect (Inr (Some result) # rs) found_ips =
     collect rs (if result \<noteq> [] then found_ips @ [result] else found_ips)"

datatype phase = Fast | Slow

type_synonym probe = "phase \<times> string"

text \<open>
  One \<open>with ThreadPoolExecutor(max_workers=n) as executor\<close> block. The constructor raises
  \<open>ValueError\<close> when \<open>n \<le> 0\<close>, before any probe is submitted. Otherwise every address is
  submitted (and its probe runs: leaving the block waits for all of them) before the results
  are collected in submission order. The first component records the probes invoked.
\<close>

definition probe_all ::
  "int \<Rightarrow> world \<Rightarrow> phase \<Rightarrow> string list \<Rightarrow> int \<Rightarrow> real \<Rightarrow> string list
     \<Rightarrow> probe list \<times> (py_error + string list)" where
  "probe_all n w ph ips port timeout found_ips =
     (if n \<le> 0 then ([], Inl ValueError)
      else (map (Pair ph) ips,
            collect (map (\<lambda>ip. check_port w ip port timeout) ips) found_ips))"

text \<open>
  \<open>scan_network\<close> returns the probes it invoked, in order, and either the list of addresses
  found or the exception that left it.
\<close>

definition scan_network ::
  "world \<Rightarrow> int \<Rightarrow> real \<Rightarrow> int \<Rightarrow> probe list \<times> (py_error + string list)" where
  "scan_network w port timeout max_workers =
     (let local_ip = get_local_ip w in
      if local_ip = ''127.0.0.1'' then ([], Inr [])
      else
        (let arp_ips = get_arp_ips w;
             (fast_log, fast) =
               (if arp_ips \<noteq> []
                then probe_all (int (length arp_ips) + 1) w Fast arp_ips port timeout []
                else ([], Inr []))
         in case fast of
              Inl e \<Rightarrow> (fast_log, Inl e)
            | Inr found_ips \<Rightarrow>
                if found_ips \<noteq> [] then (fast_log, Inr found_ips)
                else
                  (let subnet = subnet_prefix local_ip;
                       ips_to_scan = map (\<lambda>i. subnet @ ''.'' @ str_nat i) [1..<255];
                       ips_to_scan =
                         filter (\<lambda>ip. ip \<notin> set arp_ips \<and> ip \<noteq> local_ip) ips_to_scan;
                       (slow_log, slow) =
                         probe_all max_workers w Slow ips_to_scan port timeout found_ips
                   in (fast_log @ slow_log, slow))))"



text \<open>
  Two addresses lie on the same /24 subnet when their first three octets are identical.
\<close>

definition same_subnet24 :: "string \<Rightarrow> string \<Rightarrow> bool" where
  "same_subnet24 a b \<longleftrightarrow>
     length (str_split (CHR ''.'') a) = 4 \<and> length (str_split (CHR ''.'') b) = 4
     \<and> take 3 (str_split (CHR ''.'') a) = take 3 (str_split (CHR ''.'') b)"




text \<open>
  Example networks; the local address is \<open>192.168.1.2\<close> in each. In \<open>lan_fast\<close> the
  neighbor cache lists two neighbours, an address of another network and the local address,
  and only \<open>192.168.1.5\<close> accepts connections. In \<open>lan_quiet\<close> the neighbor cache is
  empty, \<open>192.168.1.77\<close> accepts and every other connection attempt raises. In
  \<open>lan_two_subnets\<close> the cache lists a neighbour and an address of the subnet
  \<open>192.168.10\<close>. In \<open>lan_no_descriptor\<close> the socket for the probe of \<open>192.168.1.9\<close>
  cannot be created; in the other three every socket can.
\<close>

definition lan_fast :: world where
  "lan_fast = \<lparr> getsockname = Some ''192.168.1.2'',
      arp_found = Some [''192.168.1.5'', ''192.168.1.9'', ''10.0.0.1'', ''192.168.1.2''],
      socket_create = (\<lambda>ip. True),
      connect_ex = (\<lambda>ip port. if ip = ''192.168.1.5'' then Code 0 else Code 111) \<rparr>"


definition lan_two_subnets :: world where
  "lan_two_subnets = \<lparr> getsockname = Some ''192.168.1.2'',
      arp_found = Some [''192.168.1.5'', ''192.168.10.5''],
      socket_create = (\<lambda>ip. True),
      connect_ex = (\<lambda>ip port. Code 111) \<rparr>"

definition lan_no_descriptor :: world where
  "lan_no_descriptor = \<lparr> getsockname = Some ''192.168.1.2'',
      arp_found = Some [''192.168.1.5'', ''192.168.1.9''],
      socket_create = (\<lambda>ip. ip \<noteq> ''192.168.1.9''),
      connect_ex = (\<lambda>ip port. if ip = ''192.168.1.5'' then Code 0 else Code 111) \<rparr>"

section \<open>The step-streaming endpoint (\<open>web_server.py\<close>, \<open>websocket_endpoint\<close>)\<close>

text \<open>
  A \<open>StepResult\<close> is inspected for \<open>finished\<close> and \<open>message\<close> only; the step event carries
  the whole result. One call of \<open>agent.step\<close> returns a result or raises an exception, of
  which the handler uses the description \<open>str(e)\<close>.
\<close>

record step_result =
  finished :: bool
  message :: "string option"

datatype step_outcome = Returns step_result | Raises string

text \<open>The JSON objects sent to the client, by their \<open>type\<close> field.\<close>

datatype event = InfoEvent string | StepEvent step_result | FinishEvent string | ErrorEvent string

text \<open>
  What the handler does, in order: \<open>agent.step(task)\<close>, \<open>agent.step()\<close> and
  \<open>websocket.send_json\<close>. Each \<open>await\<close> completes before the next statement runs. The
  client stays connected while a task runs: a send does not fail, and a disconnection is seen
  by \<open>receive_json\<close>.
\<close>

datatype effect = FirstStep "string option" | NextStep | Emit event

text \<open>\<open>result.message or "Task completed"\<close>: \<open>None\<close> and the empty text are falsy.\<close>

definition finish_message :: "step_result \<Rightarrow> string" where
  "finish_message result =
     (case message result of
        None \<Rightarrow> ''Task completed''
      | Some m \<Rightarrow> if m = [] then ''Task completed'' else m)"

text \<open>
  The loop \<open>while not result.finished\<close>. The agent is given by what its calls return or
  raise, numbered from zero; \<open>n\<close> is the number of the next call. The loop need not end, so
  not returning is the value \<open>None\<close>. An exception of a step leaves the loop (\<open>Inl\<close>).
\<close>

partial_function (option) step_loop ::
  "(nat \<Rightarrow> step_outcome) \<Rightarrow> nat \<Rightarrow> step_result \<Rightarrow> effect list
     \<Rightarrow> (effect list \<times> (string + step_result)) option" where
  "step_loop agent n result trace =
     (if finished result then Some (trace, Inr result)
      else (case agent n of
              Raises e \<Rightarrow> Some (trace @ [NextStep], Inl e)
            | Returns r \<Rightarrow>
                step_loop agent (Suc n) r (trace @ [NextStep, Emit (StepEvent r)])))"

declare step_loop.simps [code]

text \<open>The body of the inner \<open>try\<close>: the info event, the first step, the loop, the finish event.\<close>

definition try_body ::
  "(nat \<Rightarrow> step_outcome) \<Rightarrow> string option \<Rightarrow> (effect list \<times> (string + unit)) option" where
  "try_body agent task =
     (let trace = [Emit (InfoEvent ''Starting task...''), FirstStep task] in
      case agent 0 of
        Raises e \<Rightarrow> Some (trace, Inl e)
      | Returns result \<Rightarrow>
          (case step_loop agent 1 result (trace @ [Emit (StepEvent result)]) of
             None \<Rightarrow> None
           | Some (trace, Inl e) \<Rightarrow> Some (trace, Inl e)
           | Some (trace, Inr result) \<Rightarrow>
               Some (trace @ [Emit (FinishEvent (finish_message result))], Inr ())))"

text \<open>
  \<open>traceback.print_exc()\<close> in the \<open>except\<close> block: the module does not import
  \<open>traceback\<close>, so evaluating the name raises \<open>NameError\<close>.
\<close>

definition traceback_print_exc :: "py_error + unit" where
  "traceback_print_exc = Inl NameError"

text \<open>
  One task: the \<open>try\<close> body and, for an exception of a step, the \<open>except Exception\<close> block,
  which sends the error event and then calls \<open>traceback.print_exc()\<close>. \<open>Inl\<close> is the
  exception that leaves the \<open>except\<close> block.
\<close>

definition run_task ::
  "(nat \<Rightarrow> step_outcome) \<Rightarrow> string option \<Rightarrow> (effect list \<times> (py_error + unit)) option" where
  "run_task agent task =
     (case try_body agent task of
        None \<Rightarrow> None
      | Some (trace, Inr u) \<Rightarrow> Some (trace, Inr ())
      | Some (trace, Inl e) \<Rightarrow>
          (let trace = trace @ [Emit (ErrorEvent e)] in
           case traceback_print_exc of
             Inl err \<Rightarrow> Some (trace, Inl err)
           | Inr u \<Rightarrow> Some (trace, Inr ())))"

text \<open>
  A task-start message (a JSON object): \<open>data.get("task")\<close>; the \<open>max_steps\<close> entry, absent
  (the default 100 is used) or with the outcome of \<open>int(...)\<close> on it, a number or an
  exception; and the behaviour of the agent built for the message.
\<close>

record task_start =
  msg_task :: "string option"
  msg_max_steps :: "(py_error + int) option"
  msg_agent :: "nat \<Rightarrow> step_outcome"

text \<open>
  The loop \<open>while True: data = await websocket.receive_json() ...\<close> over the messages the
  client sends before it disconnects. \<open>receive_json\<close> then raises \<open>WebSocketDisconnect\<close>,
  which the outer \<open>except\<close> catches; any other exception outside the inner \<open>try\<close>, or leaving
  its \<open>except\<close> block, leaves the endpoint.
\<close>

datatype endpoint_end = ClientDisconnected | Crashed py_error

fun receive_loop ::
  "task_start list \<Rightarrow> effect list \<Rightarrow> (effect list \<times> endpoint_end) option" where
  "receive_loop [] trace = Some (trace, ClientDisconnected)"
| "receive_loop (data # rest) trace =
     (case msg_max_steps data of
        Some (Inl e) \<Rightarrow> Some (trace, Crashed e)
      | _ \<Rightarrow>
          (case run_task (msg_agent data) (msg_task data) of
             None \<Rightarrow> None
           | Some (session, Inl e) \<Rightarrow> Some (trace @ session, Crashed e)
           | Some (session, Inr u) \<Rightarrow> receive_loop rest (trace @ session)))"

definition websocket_endpoint :: "task_start list \<Rightarrow> (effect list \<times> endpoint_end) option" where
  "websocket_endpoint inbound = receive_loop inbound []"

text \<open>Example agents.\<close>

definition three_step_agent :: "nat \<Rightarrow> step_outcome" where
  "three_step_agent n =
     (if n < 2 then Returns \<lparr>finished = False, message = Some ''tapped''\<rparr>
      else Returns \<lparr>finished = True, message = None\<rparr>)"

definition second_call_fails :: "nat \<Rightarrow> step_outcome" where
  "second_call_fails n =
     (if n = 0 then Returns \<lparr>finished = False, message = None\<rparr>
      else Raises ''device offline'')"

definition failing_agent :: "nat \<Rightarrow> step_outcome" where
  "failing_agent n = Raises ''device offline''"

definition one_step_agent :: "nat \<Rightarrow> step_outcome" where
  "one_step_agent n = Returns \<lparr>finished = True, message = Some ''done''\<rparr>"

section \<open>Facts about the string operations\<close>

lemma strip_decomp:
  "dropWhile is_space s = str_strip s @ rev (takeWhile is_space (rev (dropWhile is_space s)))"
proof -
  have "rev (takeWhile is_space (rev (dropWhile is_space s))
             @ dropWhile is_space (rev (dropWhile is_space s))) = dropWhile is_space s"
    by (simp only: takeWhile_dropWhile_id rev_rev_ident)
  then show ?thesis
    unfolding str_strip_def by (simp only: rev_append)
qed

lemma trimmed_strip: "trimmed (str_strip s)"
proof (cases "str_strip s")
  case Nil
  then show ?thesis by (simp add: trimmed_def)
next
  case (Cons c cs)
  have ne: "dropWhile is_space (rev (dropWhile is_space s)) \<noteq> []"
    using Cons by (auto simp: str_strip_def)
  have "last (str_strip s) = hd (dropWhile is_space (rev (dropWhile is_space s)))"
    using ne by (simp add: str_strip_def last_rev)
  then have l: "\<not> is_space (last (str_strip s))"
    using ne hd_dropWhile by metis
  have "dropWhile is_space s = (c # cs) @ rev (takeWhile is_space (rev (dropWhile is_space s)))"
    using strip_decomp [of s] Cons by simp
  then have "hd (dropWhile is_space s) = c" and "dropWhile is_space s \<noteq> []"
    by (metis append_Cons list.sel(1), metis append_Cons list.distinct(1))
  then have "\<not> is_space c"
    using hd_dropWhile by metis
  with l Cons show ?thesis
    by (simp add: trimmed_def)
qed

lemma strip_trimmed: "trimmed s \<Longrightarrow> str_strip s = s"
proof (cases s)
  case Nil
  then show ?thesis by (simp add: str_strip_def)
next
  case (Cons c cs)
  assume "trimmed s"
  then have t: "\<not> is_space c \<and> \<not> is_space (last (c # cs))"
    using Cons by (simp add: trimmed_def)
  have "rev (c # cs) = last (c # cs) # rev (butlast (c # cs))"
    by (metis append_butlast_last_id list.distinct(1) rev_append rev_singleton_conv
              append_Cons append_Nil)
  then have "dropWhile is_space (rev (c # cs)) = rev (c # cs)"
    using t by (metis dropWhile.simps(2))
  moreover have "dropWhile is_space (c # cs) = c # cs"
    using t by simp
  ultimately have "str_strip (c # cs) = c # cs"
    by (simp add: str_strip_def)
  with Cons show ?thesis by simp
qed

text \<open>A text is trimmed exactly when \<open>strip\<close> leaves it unchanged.\<close>

lemma trimmed_iff_strip: "trimmed s \<longleftrightarrow> str_strip s = s"
  using strip_trimmed trimmed_strip by metis

lemma str_find_Some_prefix: "str_find pat s = Some i \<Longrightarrow> prefix pat (drop i s)"
  by (induction s arbitrary: i) (auto split: if_splits)

lemma str_find_Some_first:
  "str_find pat s = Some i \<Longrightarrow> j < i \<Longrightarrow> \<not> prefix pat (drop j s)"
proof (induction s arbitrary: i j)
  case Nil
  then show ?case by (auto split: if_splits)
next
  case (Cons c cs)
  then show ?case
    by (cases j) (auto split: if_splits)
qed

lemma str_find_None: "str_find pat s = None \<Longrightarrow> \<not> prefix pat (drop j s)"
proof (induction s arbitrary: j)
  case Nil
  then show ?case by (auto split: if_splits)
next
  case (Cons c cs)
  then show ?case
    by (cases j) (auto split: if_splits)
qed

lemma str_find_split:
  assumes "str_find pat s = Some i"
  shows "s = take i s @ pat @ drop (i + length pat) s"
proof -
  obtain r where r: "drop i s = pat @ r"
    using str_find_Some_prefix [OF assms] by (auto simp: prefix_def)
  have "drop (i + length pat) s = drop (length pat) (drop i s)"
    by (simp add: add.commute)
  also have "\<dots> = r"
    using r by simp
  finally have "drop i s = pat @ drop (i + length pat) s"
    using r by simp
  then show ?thesis
    by (metis append_take_drop_id)
qed

text \<open>Python's \<open>pat in s\<close> is the library's \<open>sublist\<close>.\<close>

lemma str_contains_iff: "str_contains pat s \<longleftrightarrow> sublist pat s"
proof
  assume "str_contains pat s"
  then obtain i where "str_find pat s = Some i"
    by (auto simp: str_contains_def)
  then show "sublist pat s"
    unfolding sublist_def using str_find_split by blast
next
  assume "sublist pat s"
  then obtain u v where s: "s = u @ pat @ v"
    unfolding sublist_def by blast
  show "str_contains pat s"
  proof (rule ccontr)
    assume "\<not> str_contains pat s"
    then have "str_find pat s = None" by (simp add: str_contains_def)
    then have "\<not> prefix pat (drop (length u) s)" by (rule str_find_None)
    then show False using s by simp
  qed
qed

lemma str_contains_dropWhile:
  assumes "pat \<noteq> []" "\<not> is_space (hd pat)"
  shows "str_contains pat (dropWhile is_space s) = str_contains pat s"
proof (induction s)
  case Nil
  then show ?case by simp
next
  case (Cons c cs)
  show ?case
  proof (cases "is_space c")
    case True
    then have "\<not> prefix pat (c # cs)"
      using assms by (cases pat) auto
    then show ?thesis
      using True Cons by (simp add: str_contains_def)
  next
    case False
    then show ?thesis by simp
  qed
qed

lemma str_contains_rev: "str_contains (rev pat) (rev s) = str_contains pat s"
  by (simp add: str_contains_iff)

text \<open>Trimming does not change whether a marker without outer whitespace occurs.\<close>

lemma str_contains_strip:
  assumes "pat \<noteq> []" "\<not> is_space (hd pat)" "\<not> is_space (last pat)"
  shows "str_contains pat (str_strip s) = str_contains pat s"
proof -
  have r: "rev pat \<noteq> []" "\<not> is_space (hd (rev pat))"
    using assms by (simp_all add: hd_rev)
  have "str_contains pat (str_strip s)
        = str_contains (rev pat) (dropWhile is_space (rev (dropWhile is_space s)))"
    unfolding str_strip_def by (metis str_contains_rev rev_rev_ident)
  also have "\<dots> = str_contains (rev pat) (rev (dropWhile is_space s))"
    by (rule str_contains_dropWhile [OF r])
  also have "\<dots> = str_contains pat (dropWhile is_space s)"
    by (rule str_contains_rev)
  also have "\<dots> = str_contains pat s"
    by (rule str_contains_dropWhile [OF assms(1,2)])
  finally show ?thesis .
qed

lemma first_marker_absent:
  "\<forall>m \<in> set ms. str_find m content = None \<Longrightarrow> first_marker content ms p = p"
  by (induction ms arbitrary: p) auto

section \<open>The response decoder: results\<close>

text \<open>
  Claim C10. For every input text the decoder returns a pair (it is a total function with no
  raising branch), and both fields of the pair are whitespace-trimmed: neither the thinking
  nor the action starts or ends with a whitespace character, whichever rule applied.
\<close>

theorem decode_total_trimmed:
  "\<exists>thinking action. parse_response raw = (thinking, action)
                     \<and> trimmed thinking \<and> trimmed action"
proof -
  have e: "trimmed []" by (simp add: trimmed_def)
  have "trimmed (fst (parse_response raw)) \<and> trimmed (snd (parse_response raw))"
    unfolding parse_response_def Let_def
    by (simp add: trimmed_strip e)
  then show ?thesis
    by (cases "parse_response raw") auto
qed

theorem decode_total_trimmed_witness:
  "\<exists>thinking action.
      parse_response [CHR 0x20, CHR 0x0A, CHR ''h'', CHR ''i'', CHR 0x20, CHR ''d'', CHR ''o'',
                      CHR ''('', CHR '')'', CHR 0x09] = (thinking, action)
      \<and> trimmed thinking \<and> trimmed action"
  using decode_total_trimmed
          [of "[CHR 0x20, CHR 0x0A, CHR ''h'', CHR ''i'', CHR 0x20, CHR ''d'', CHR ''o'',
                CHR ''('', CHR '')'', CHR 0x09]"]
  by simp

text \<open>
  Claim C3. For every input that contains the answer delimiter \<open><answer>\<close>, the decoder splits
  the trimmed text at the first occurrence of the delimiter: the thinking is the text before it
  with the \<open><think>\<close> and \<open></think>\<close> markers removed, the action is the text after it with
  \<open></answer>\<close> removed (both fields trimmed, as every result of the decoder is). In
  particular the text \<open><think>foo</think><answer>do(tap,1,2)</answer>\<close> decodes to the
  thinking \<open>foo\<close> and the action \<open>do(tap,1,2)\<close>.
\<close>

theorem decode_answer_delimiter:
  assumes "sublist ''<answer>'' raw"
  shows "(\<exists>before after.
            str_strip raw = before @ ''<answer>'' @ after
          \<and> (\<forall>b a. str_strip raw = b @ ''<answer>'' @ a \<longrightarrow> length before \<le> length b)
          \<and> parse_response raw =
              (str_strip (str_replace ''</think>'' [] (str_replace ''<think>'' [] before)),
               str_strip (str_replace ''</answer>'' [] after)))
       \<and> parse_response ''<think>foo</think><answer>do(tap,1,2)</answer>''
           = (''foo'', ''do(tap,1,2)'')"
proof
  let ?c = "str_strip raw"
  have "\<not> is_space (CHR ''<'')" "\<not> is_space (CHR ''>'')"
    by (simp_all add: is_space_def)
  then have "str_contains ''<answer>'' ?c = str_contains ''<answer>'' raw"
    by (intro str_contains_strip) simp_all
  then have c: "str_contains ''<answer>'' ?c"
    using assms by (simp add: str_contains_iff)
  then obtain i where i: "str_find ''<answer>'' ?c = Some i"
    by (auto simp: str_contains_def)
  let ?before = "take i ?c" and ?after = "drop (i + length ''<answer>'') ?c"
  have split: "?c = ?before @ ''<answer>'' @ ?after"
    by (rule str_find_split [OF i])
  have first: "length ?before \<le> length b" if "?c = b @ ''<answer>'' @ a" for b a
  proof (rule ccontr)
    assume "\<not> length ?before \<le> length b"
    then have "length b < i" by simp
    then have "\<not> prefix ''<answer>'' (drop (length b) ?c)"
      by (rule str_find_Some_first [OF i])
    moreover have "drop (length b) ?c = ''<answer>'' @ a"
      by (subst that) simp
    ultimately show False by simp
  qed
  have "parse_response raw =
          (str_strip (str_replace ''</think>'' [] (str_replace ''<think>'' [] ?before)),
           str_strip (str_replace ''</answer>'' [] ?after))"
    using c i by (simp add: parse_response_def str_split1_def Let_def)
  with split first
  show "\<exists>before after.
            str_strip raw = before @ ''<answer>'' @ after
          \<and> (\<forall>b a. str_strip raw = b @ ''<answer>'' @ a \<longrightarrow> length before \<le> length b)
          \<and> parse_response raw =
              (str_strip (str_replace ''</think>'' [] (str_replace ''<think>'' [] before)),
               str_strip (str_replace ''</answer>'' [] after))"
    by blast
next
  show "parse_response ''<think>foo</think><answer>do(tap,1,2)</answer>''
          = (''foo'', ''do(tap,1,2)'')"
    by code_simp
qed

theorem decode_answer_delimiter_witness:
  "sublist ''<answer>'' '' <think>plan</think> <answer> do(tap,1,2) </answer> ''
   \<and> (\<exists>before after.
         str_strip '' <think>plan</think> <answer> do(tap,1,2) </answer> ''
           = before @ ''<answer>'' @ after
       \<and> (\<forall>b a. str_strip '' <think>plan</think> <answer> do(tap,1,2) </answer> ''
                    = b @ ''<answer>'' @ a \<longrightarrow> length before \<le> length b)
       \<and> parse_response '' <think>plan</think> <answer> do(tap,1,2) </answer> '' =
           (str_strip (str_replace ''</think>'' [] (str_replace ''<think>'' [] before)),
            str_strip (str_replace ''</answer>'' [] after)))"
proof -
  have "str_contains ''<answer>'' '' <think>plan</think> <answer> do(tap,1,2) </answer> ''"
    by code_simp
  then have h: "sublist ''<answer>'' '' <think>plan</think> <answer> do(tap,1,2) </answer> ''"
    by (simp only: str_contains_iff)
  from decode_answer_delimiter [OF h] h show ?thesis
    by blast
qed

text \<open>
  Claim C6. For every input whose trimmed text contains no answer delimiter, not both of the
  markers \<open><think>\<close> and \<open></think>\<close>, none of the action-start tokens \<open>{action=\<close>,
  \<open>do(\<close>, \<open>finish(\<close>, and does not begin with \<open>{\<close>, \<open>do(\<close> or \<open>finish(\<close>, the decoder
  returns the whole trimmed text as the thinking and the empty text as the action.
\<close>

theorem decode_final_fallback:
  assumes "content = str_strip raw"
    and "\<not> sublist ''<answer>'' content"
    and "\<not> (sublist ''<think>'' content \<and> sublist ''</think>'' content)"
    and "\<forall>m \<in> set [''{action='', ''do('', ''finish(''] . \<not> sublist m content"
    and "\<not> prefix ''{'' content" "\<not> prefix ''do('' content" "\<not> prefix ''finish('' content"
  shows "parse_response raw = (content, [])"
proof -
  have "\<forall>m \<in> set action_markers. str_find m content = None"
    using assms(4) by (simp add: action_markers_def str_contains_iff [symmetric] str_contains_def)
  then have "first_marker content action_markers (length content) = length content"
    by (rule first_marker_absent)
  then show ?thesis
    using assms(1,2,3,5,6,7)
    by (auto simp add: parse_response_def Let_def str_contains_iff startswith_def)
qed

theorem decode_final_fallback_witness:
  "parse_response ''Nothing to do here.'' = (''Nothing to do here.'', [])"
proof -
  have s: "str_strip ''Nothing to do here.'' = ''Nothing to do here.''"
    by code_simp
  have n: "\<not> str_contains ''<answer>'' ''Nothing to do here.''"
    "\<not> str_contains ''<think>'' ''Nothing to do here.''"
    "\<not> str_contains ''{action='' ''Nothing to do here.''"
    "\<not> str_contains ''do('' ''Nothing to do here.''"
    "\<not> str_contains ''finish('' ''Nothing to do here.''"
    by code_simp+
  show ?thesis
    using decode_final_fallback [of "''Nothing to do here.''" "''Nothing to do here.''"] s n
    by (simp add: str_contains_iff)
qed

section \<open>Facts about the scanner\<close>






















lemma get_arp_ips_set:
  "arp_found w = Some found \<Longrightarrow>
   set (get_arp_ips w)
     = {ip \<in> set found. prefix (subnet_prefix (get_local_ip w)) ip \<and> ip \<noteq> get_local_ip w}"
  by (auto simp: get_arp_ips_def startswith_def Let_def)

text \<open>
  The filter of \<open>get_arp_ips\<close> keeps every neighbor-cache address on the subnet of the local
  address; what it keeps beyond them is shown under claim C5.
\<close>

lemma str_split_nonempty: "str_split sep s \<noteq> []"
  by (induction s) (auto split: list.splits)

lemma str_join_Cons_Cons: "str_join sep ((c # p) # ps) = c # str_join sep (p # ps)"
  by (cases ps) simp_all

lemma str_join_Nil_Cons: "ps \<noteq> [] \<Longrightarrow> str_join sep ([] # ps) = sep @ str_join sep ps"
  by (cases ps) simp_all

lemma str_join_split: "str_join [sep] (str_split sep s) = s"
proof (induction s)
  case Nil
  then show ?case by simp
next
  case (Cons c cs)
  show ?case
  proof (cases "c = sep")
    case True
    then show ?thesis
      using Cons by (simp add: str_join_Nil_Cons str_split_nonempty)
  next
    case False
    obtain p ps where p: "str_split sep cs = p # ps"
      using str_split_nonempty [of sep cs] by (cases "str_split sep cs") auto
    with False Cons show ?thesis
      by (simp add: str_join_Cons_Cons)
  qed
qed

lemma same_subnet24_prefix:
  assumes "same_subnet24 l ip"
  shows "prefix (subnet_prefix l) ip"
proof -
  from assms obtain a b c d where l: "str_split (CHR ''.'') l = [a, b, c, d]"
    by (auto simp: same_subnet24_def numeral_eq_Suc length_Suc_conv)
  from assms obtain a' b' c' e where i: "str_split (CHR ''.'') ip = [a', b', c', e]"
    by (auto simp: same_subnet24_def numeral_eq_Suc length_Suc_conv)
  from assms l i have eq: "a' = a" "b' = b" "c' = c"
    by (simp_all add: same_subnet24_def numeral_eq_Suc)
  have "ip = str_join ''.'' (str_split (CHR ''.'') ip)"
    by (simp add: str_join_split)
  then have "ip = a @ ''.'' @ b @ ''.'' @ c @ ''.'' @ e"
    by (simp add: i eq)
  moreover have "subnet_prefix l = a @ ''.'' @ b @ ''.'' @ c"
    by (simp add: subnet_prefix_def l)
  ultimately show ?thesis
    by (simp add: prefix_def)
qed

lemma same_subnet_kept:
  assumes "arp_found w = Some found" and "ip \<in> set found"
    and "same_subnet24 (get_local_ip w) ip" and "ip \<noteq> get_local_ip w"
  shows "ip \<in> set (get_arp_ips w)"
  using assms same_subnet24_prefix [OF assms(3)] by (simp add: get_arp_ips_set)

section \<open>The scanner: results\<close>








text \<open>
  A negative timeout is refused by \<open>settimeout\<close>, which \<open>check_port\<close> calls before its
  \<open>try\<close> block: the exception leaves \<open>scan_network\<close>.
\<close>

lemma scan_raises_on_negative_timeout:
  "snd (scan_network lan_fast 5555 (-1) 200) = Inl ValueError"
proof -
  have arp: "get_arp_ips lan_fast = [''192.168.1.5'', ''192.168.1.9'']"
    by (simp add: get_arp_ips_def get_local_ip_def lan_fast_def subnet_prefix_def startswith_def)
  have l: "get_local_ip lan_fast = ''192.168.1.2''"
    by (simp add: get_local_ip_def lan_fast_def)
  have c: "check_port lan_fast ip 5555 (-1) = Inl ValueError" for ip
    by (simp add: check_port_def lan_fast_def)
  show ?thesis
    by (simp add: scan_network_def Let_def probe_all_def l arp c)
qed

text \<open>
  The socket of a probe is created before the \<open>try\<close> block as well (\<open>get_local_ip\<close>
  creates its socket inside): when it cannot be created, \<open>OSError\<close> leaves \<open>scan_network\<close>,
  here although the probe of \<open>192.168.1.5\<close> is accepted.
\<close>

lemma scan_raises_when_socket_fails:
  "scan_network lan_no_descriptor 5555 (1/5) 200
     = ([(Fast, ''192.168.1.5''), (Fast, ''192.168.1.9'')], Inl OSError)"
proof -
  have arp: "get_arp_ips lan_no_descriptor = [''192.168.1.5'', ''192.168.1.9'']"
    by (simp add: get_arp_ips_def get_local_ip_def lan_no_descriptor_def subnet_prefix_def
                  startswith_def)
  have l: "get_local_ip lan_no_descriptor = ''192.168.1.2''"
    by (simp add: get_local_ip_def lan_no_descriptor_def)
  have c: "check_port lan_no_descriptor ''192.168.1.5'' 5555 (1/5) = Inr (Some ''192.168.1.5'')"
    "check_port lan_no_descriptor ''192.168.1.9'' 5555 (1/5) = Inl OSError"
    by (simp_all add: check_port_def lan_no_descriptor_def)
  show ?thesis
    by (simp add: scan_network_def Let_def probe_all_def l arp c)
qed

text \<open>
  Claim C5. The fast-path candidates should be exactly the neighbor-cache addresses on the
  /24 subnet of the local address, without the local address. The filter of \<open>get_arp_ips\<close>
  compares with the prefix \<open>192.168.1\<close>, which has no closing dot: with the local address
  \<open>192.168.1.2\<close> it keeps \<open>192.168.10.5\<close>, an address of another /24 subnet.
\<close>

theorem arp_filter_keeps_other_subnet:
  "get_arp_ips lan_two_subnets = [''192.168.1.5'', ''192.168.10.5'']
   \<and> \<not> same_subnet24 ''192.168.1.2'' ''192.168.10.5''"
  by (simp add: get_arp_ips_def get_local_ip_def lan_two_subnets_def subnet_prefix_def
                startswith_def same_subnet24_def)

section \<open>The endpoint: results\<close>

lemma step_loop_finished:
  "finished result \<Longrightarrow> step_loop agent n result trace = Some (trace, Inr result)"
  by (subst step_loop.simps) simp

text \<open>
  Claim C2. Session step ordering and finish: when the step executor returns results with
  \<open>finished\<close> false twice and then true, the handler sends the info event, then exactly
  three step events carrying those results in order, then exactly one finish event, and
  nothing after it; each step is called only after the result of the step before it was sent.
  The finish event carries the last step's message, or \<open>Task completed\<close> when there is none.
\<close>

theorem session_step_ordering:
  assumes "agent 0 = Returns r0" and "\<not> finished r0"
    and "agent 1 = Returns r1" and "\<not> finished r1"
    and "agent 2 = Returns r2" and "finished r2"
  shows "run_task agent task =
           Some ([Emit (InfoEvent ''Starting task...''),
                  FirstStep task, Emit (StepEvent r0),
                  NextStep, Emit (StepEvent r1),
                  NextStep, Emit (StepEvent r2),
                  Emit (FinishEvent (finish_message r2))], Inr ())
         \<and> (\<forall>m. message r2 = Some m \<and> m \<noteq> [] \<longrightarrow> finish_message r2 = m)
         \<and> (message r2 = None \<longrightarrow> finish_message r2 = ''Task completed'')"
proof -
  have a1: "agent (Suc 0) = Returns r1" using assms(3) by simp
  have a2: "agent (Suc (Suc 0)) = Returns r2" using assms(5) by (simp add: numeral_2_eq_2)
  have l3: "step_loop agent (Suc (Suc (Suc 0))) r2 tr = Some (tr, Inr r2)" for tr
    by (subst step_loop.simps) (simp add: assms(6))
  have l2: "step_loop agent (Suc (Suc 0)) r1 tr
              = Some (tr @ [NextStep, Emit (StepEvent r2)], Inr r2)" for tr
    by (subst step_loop.simps) (simp add: assms(4) a2 l3)
  have l1: "step_loop agent (Suc 0) r0 tr
              = Some (tr @ [NextStep, Emit (StepEvent r1), NextStep, Emit (StepEvent r2)], Inr r2)" for tr
    by (subst step_loop.simps) (simp add: assms(2) a1 l2)
  show ?thesis
    by (simp add: run_task_def try_body_def assms(1) l1 finish_message_def)
qed

theorem session_step_ordering_witness:
  "run_task three_step_agent (Some ''open settings'') =
     Some ([Emit (InfoEvent ''Starting task...''),
            FirstStep (Some ''open settings''),
            Emit (StepEvent \<lparr>finished = False, message = Some ''tapped''\<rparr>),
            NextStep, Emit (StepEvent \<lparr>finished = False, message = Some ''tapped''\<rparr>),
            NextStep, Emit (StepEvent \<lparr>finished = True, message = None\<rparr>),
            Emit (FinishEvent ''Task completed'')], Inr ())"
  using session_step_ordering
          [of three_step_agent "\<lparr>finished = False, message = Some ''tapped''\<rparr>"
              "\<lparr>finished = False, message = Some ''tapped''\<rparr>"
              "\<lparr>finished = True, message = None\<rparr>" "Some ''open settings''"]
  by (simp add: three_step_agent_def finish_message_def)

text \<open>
  Claim C8. Session error short-circuit: when the first step returns an unfinished result and
  the second call of the step executor raises, the handler sends (after the info event)
  exactly one step event and then exactly one error event carrying the description of the
  failure; no step is called and no step or finish event is sent after it.
\<close>

theorem session_error_short_circuit:
  assumes "agent 0 = Returns r0" and "\<not> finished r0" and "agent 1 = Raises e"
  shows "run_task agent task =
           Some ([Emit (InfoEvent ''Starting task...''),
                  FirstStep task, Emit (StepEvent r0),
                  NextStep, Emit (ErrorEvent e)], Inl NameError)"
proof -
  have a1: "agent (Suc 0) = Raises e" using assms(3) by simp
  have l1: "step_loop agent (Suc 0) r0 tr = Some (tr @ [NextStep], Inl e)" for tr
    by (subst step_loop.simps) (simp add: assms(2) a1)
  show ?thesis
    by (simp add: run_task_def try_body_def assms(1) l1 traceback_print_exc_def)
qed

theorem session_error_short_circuit_witness:
  "run_task second_call_fails (Some ''open settings'') =
     Some ([Emit (InfoEvent ''Starting task...''),
            FirstStep (Some ''open settings''),
            Emit (StepEvent \<lparr>finished = False, message = None\<rparr>),
            NextStep, Emit (ErrorEvent ''device offline'')], Inl NameError)"
  using session_error_short_circuit
          [of second_call_fails "\<lparr>finished = False, message = None\<rparr>" "''device offline''"
              "Some ''open settings''"]
  by (simp add: second_call_fails_def)

text \<open>
  After a finished task the handler waits for the next message and runs it as a new task.
  After a task whose step raised it does not: the exception of \<open>traceback.print_exc()\<close>
  leaves the endpoint, whatever messages follow.
\<close>

lemma finished_session_continues:
  assumes "run_task (msg_agent data) (msg_task data) = Some (session, Inr ())"
    and "\<forall>e. msg_max_steps data \<noteq> Some (Inl e)"
  shows "receive_loop (data # rest) trace = receive_loop rest (trace @ session)"
  using assms by (auto split: option.splits sum.splits)

lemma step_exception_ends_endpoint:
  assumes "try_body (msg_agent data) (msg_task data) = Some (session, Inl e)"
    and "\<forall>e. msg_max_steps data \<noteq> Some (Inl e)"
  shows "receive_loop (data # rest) trace
           = Some (trace @ session @ [Emit (ErrorEvent e)], Crashed NameError)"
  using assms
  by (auto simp: run_task_def traceback_print_exc_def split: option.splits sum.splits)

text \<open>
  Claim C4. After a task that ended with an error, a new task-start message on the same open
  connection should start a new session that is processed normally. On a connection that
  sends a task whose first step raises and then a second task, the handler sends the error
  event of the first task and ends with \<open>NameError\<close>: the second message is never received,
  no step of the second task is called and no event is sent for it.
\<close>

theorem errored_session_ends_endpoint:
  "websocket_endpoint
     [\<lparr>msg_task = Some ''open settings'', msg_max_steps = None, msg_agent = failing_agent\<rparr>,
      \<lparr>msg_task = Some ''open camera'', msg_max_steps = None, msg_agent = one_step_agent\<rparr>]
   = Some ([Emit (InfoEvent ''Starting task...''),
            FirstStep (Some ''open settings''),
            Emit (ErrorEvent ''device offline'')], Crashed NameError)"
  by (simp add: websocket_endpoint_def run_task_def try_body_def failing_agent_def
                traceback_print_exc_def)

text \<open>The same two tasks in the other order are both run.\<close>

lemma finished_session_then_next:
  "websocket_endpoint
     [\<lparr>msg_task = Some ''open camera'', msg_max_steps = None, msg_agent = one_step_agent\<rparr>,
      \<lparr>msg_task = Some ''open settings'', msg_max_steps = None, msg_agent = failing_agent\<rparr>]
   = Some ([Emit (InfoEvent ''Starting task...''),
            FirstStep (Some ''open camera''),
            Emit (StepEvent \<lparr>finished = True, message = Some ''done''\<rparr>),
            Emit (FinishEvent ''done''),
            Emit (InfoEvent ''Starting task...''),
            FirstStep (Some ''open settings''),
            Emit (ErrorEvent ''device offline'')], Crashed NameError)"
  by (simp add: websocket_endpoint_def run_task_def try_body_def failing_agent_def
                one_step_agent_def traceback_print_exc_def step_loop_finished
                finish_message_def)

end
